theory Spec2Isabelle
  imports Complex_Main
begin

section \<open>The rate limiter\<close>

text \<open>
  \<^verbatim>\<open>user_request_tracker\<close> is a dictionary from user ids to lists of clock readings.
  The function never looks at the order of the keys, so the dictionary is a map.
  \<^verbatim>\<open>time.time()\<close> is a float; the model reads the clock as a real number. For clock
  readings of the same magnitude the float subtraction \<^verbatim>\<open>current_time - t\<close> is exact, so
  the comparison with \<^verbatim>\<open>TIME_WINDOW\<close> is the one written here.
\<close>

definition RATE_LIMIT :: nat where
  "RATE_LIMIT = 5"

definition TIME_WINDOW :: real where
  "TIME_WINDOW = 60"

type_synonym tracker = "int \<rightharpoonup> real list"

text \<open>The list comprehension of the sweep: the entries of one window that are still fresh.\<close>

definition fresh :: "real \<Rightarrow> real list \<Rightarrow> real list" where
  "fresh current_time ts = filter (\<lambda>t. current_time - t < TIME_WINDOW) ts"

text \<open>
  The \<^verbatim>\<open>for uid in list(user_request_tracker.keys())\<close> loop: every window is replaced by
  its fresh entries, and a user whose window became empty is deleted. Each key is treated
  on its own, so the loop is a pointwise update of the map.
\<close>

definition prune :: "real \<Rightarrow> tracker \<Rightarrow> tracker" where
  "prune current_time tr =
     (\<lambda>uid. case tr uid of
        None \<Rightarrow> None
      | Some ts \<Rightarrow> (if fresh current_time ts = [] then None else Some (fresh current_time ts)))"

text \<open>
  \<^verbatim>\<open>check_rate_limit\<close>, with the clock reading as an argument and the tracker passed
  in and returned.
\<close>

definition check_rate_limit :: "real \<Rightarrow> int \<Rightarrow> tracker \<Rightarrow> bool \<times> tracker" where
  "check_rate_limit current_time user_id tr =
     (let tr1 = prune current_time tr in
      case tr1 user_id of
        None \<Rightarrow> (True, tr1(user_id \<mapsto> [current_time]))
      | Some ts \<Rightarrow>
          (if length ts < RATE_LIMIT then (True, tr1(user_id \<mapsto> ts @ [current_time]))
           else (False, tr1)))"

text \<open>
  The window of a user as a list: a user without a key has the empty window.
\<close>

definition window :: "tracker \<Rightarrow> int \<Rightarrow> real list" where
  "window tr uid = (case tr uid of None \<Rightarrow> [] | Some ts \<Rightarrow> ts)"

text \<open>
  The trackers the program can be in: the module starts with the empty dictionary, and
  \<^verbatim>\<open>check_rate_limit\<close> is the only code that writes to it.
\<close>

inductive reachable :: "tracker \<Rightarrow> bool" where
  start: "reachable Map.empty"
| call: "reachable tr \<Longrightarrow> reachable (snd (check_rate_limit current_time user_id tr))"

text \<open>Successive calls by one user, at the given clock readings.\<close>

fun calls :: "real list \<Rightarrow> int \<Rightarrow> tracker \<Rightarrow> bool list" where
  "calls [] user_id tr = []"
| "calls (t # ts) user_id tr =
     fst (check_rate_limit t user_id tr) # calls ts user_id (snd (check_rate_limit t user_id tr))"

section \<open>Python values and primitives\<close>

text \<open>
  The exceptions the handlers can raise and do not catch themselves. An exception that
  a handler catches is a branch of its model and does not appear here.
\<close>

datatype py_error = KeyError | ValueError | TypeError | AttributeError | UnicodeDecodeError

subsection \<open>Strings\<close>

text \<open>
  A Python string is a sequence of Unicode code points. A character of the model is the
  code point of its number, so the model's strings are the Python strings whose code
  points are below 256 (ASCII and the Latin-1 supplement); a text with a code point from
  256 on has no counterpart here. On the code points below 256, \<^verbatim>\<open>str.isspace\<close> is true
  of 9 to 13, 28 to 32, 133 (NEL) and 160 (no-break space), and \<^verbatim>\<open>str.lower\<close> adds 32 to
  the capitals: 65 to 90 (A to Z) and 192 to 222 without 215 (the multiplication sign);
  it leaves every other code point below 256 as it is and never lengthens the string.
\<close>

definition isspace :: "char \<Rightarrow> bool" where
  "isspace c \<longleftrightarrow> (of_char c :: nat) \<in> {9, 10, 11, 12, 13, 28, 29, 30, 31, 32, 133, 160}"

definition strip :: "string \<Rightarrow> string" where
  "strip s = rev (dropWhile isspace (rev (dropWhile isspace s)))"

definition lower_char :: "char \<Rightarrow> char" where
  "lower_char c =
     (case map_of (zip ''ABCDEFGHIJKLMNOPQRSTUVWXYZ'' ''abcdefghijklmnopqrstuvwxyz'') c of
        Some l \<Rightarrow> l
      | None \<Rightarrow>
          if 192 \<le> (of_char c :: nat) \<and> (of_char c :: nat) \<le> 222 \<and> (of_char c :: nat) \<noteq> 215
          then char_of (of_char c + 32 :: nat)
          else c)"

definition lower :: "string \<Rightarrow> string" where
  "lower s = map lower_char s"

text \<open>\<^verbatim>\<open>s.split(sep)\<close> for a separator of one character: never the empty list.\<close>

fun split_sep :: "char \<Rightarrow> string \<Rightarrow> string list" where
  "split_sep sep [] = [[]]"
| "split_sep sep (c # cs) =
     (if c = sep then [] # split_sep sep cs
      else (case split_sep sep cs of
              [] \<Rightarrow> [[c]]
            | x # xs \<Rightarrow> (c # x) # xs))"

text \<open>
  \<^verbatim>\<open>s.split(sep, 1)\<close> for a string that contains the separator: the text before the
  first separator and the text after it.
\<close>

definition split_once :: "char \<Rightarrow> string \<Rightarrow> string \<times> string" where
  "split_once sep s = (takeWhile (\<lambda>c. c \<noteq> sep) s, drop 1 (dropWhile (\<lambda>c. c \<noteq> sep) s))"

definition startswith :: "string \<Rightarrow> string \<Rightarrow> bool" where
  "startswith s p \<longleftrightarrow> take (length p) s = p"

subsection \<open>Integers as text\<close>

text \<open>
  \<^verbatim>\<open>str(k)\<close> of an integer is its decimal numeral, with a minus sign when negative.
  Chat identifiers are far below the length at which Python refuses the conversion.
\<close>

definition digit_char :: "nat \<Rightarrow> char" where
  "digit_char d = ''0123456789'' ! d"

fun str_nat :: "nat \<Rightarrow> string" where
  "str_nat n = (if n < 10 then [digit_char n] else str_nat (n div 10) @ [digit_char (n mod 10)])"

declare str_nat.simps [simp del]

definition py_str :: "int \<Rightarrow> string" where
  "py_str k = (if k < 0 then CHR ''-'' # str_nat (nat (- k)) else str_nat (nat k))"

text \<open>
  \<^verbatim>\<open>int(s)\<close> of a string: blanks around the numeral are dropped, one sign is allowed,
  and the digits may be separated by single underscores. Anything else raises
  \<^verbatim>\<open>ValueError\<close>, which is \<open>None\<close> here. The blanks of \<^verbatim>\<open>int\<close> are not those of
  \<^verbatim>\<open>strip\<close>: below 256 they are the code points 9 to 13, 32, 133 and 160, and not 28
  to 31. Below 256 the only decimal digits are 0 to 9.
\<close>

definition is_digit :: "char \<Rightarrow> bool" where
  "is_digit c \<longleftrightarrow> c \<in> set ''0123456789''"

definition digit_val :: "char \<Rightarrow> nat" where
  "digit_val c = length (takeWhile (\<lambda>d. d \<noteq> c) ''0123456789'')"

definition int_space :: "char \<Rightarrow> bool" where
  "int_space c \<longleftrightarrow> (of_char c :: nat) \<in> {9, 10, 11, 12, 13, 32, 133, 160}"

fun parse_digits :: "string \<Rightarrow> nat \<Rightarrow> nat option" where
  "parse_digits [] acc = Some acc"
| "parse_digits (c # cs) acc =
     (if is_digit c then parse_digits cs (acc * 10 + digit_val c)
      else if c = CHR ''_'' then
        (case cs of
           [] \<Rightarrow> None
         | d # ds \<Rightarrow> if is_digit d then parse_digits ds (acc * 10 + digit_val d) else None)
      else None)"

text \<open>The value of a string of digits read after the value \<open>acc\<close>.\<close>

definition decimal :: "string \<Rightarrow> nat \<Rightarrow> nat" where
  "decimal s acc = foldl (\<lambda>a c. a * 10 + digit_val c) acc s"

definition parse_nat :: "string \<Rightarrow> nat option" where
  "parse_nat s =
     (case s of
        [] \<Rightarrow> None
      | c # cs \<Rightarrow> if is_digit c then parse_digits cs (digit_val c) else None)"

definition py_int :: "string \<Rightarrow> int option" where
  "py_int s =
     (let t = rev (dropWhile int_space (rev (dropWhile int_space s))) in
      case t of
        [] \<Rightarrow> None
      | c # cs \<Rightarrow>
          if c = CHR ''-'' then map_option (\<lambda>n. - int n) (parse_nat cs)
          else if c = CHR ''+'' then map_option int (parse_nat cs)
          else map_option int (parse_nat t))"

subsection \<open>Dictionaries\<close>

text \<open>
  A Python dictionary keeps its keys in insertion order, so it is an association list
  with distinct keys. Assigning to a key that is present replaces the value where it
  stands; assigning to a new key appends.
\<close>

fun dict_set :: "('k \<times> 'v) list \<Rightarrow> 'k \<Rightarrow> 'v \<Rightarrow> ('k \<times> 'v) list" where
  "dict_set [] k v = [(k, v)]"
| "dict_set ((k', v') # d) k v =
     (if k' = k then (k, v) # d else (k', v') # dict_set d k v)"

definition dict_get :: "('k \<times> 'v) list \<Rightarrow> 'k \<Rightarrow> 'v \<Rightarrow> 'v" where
  "dict_get d k dflt = (case map_of d k of None \<Rightarrow> dflt | Some v \<Rightarrow> v)"

definition dict_in :: "'k \<Rightarrow> ('k \<times> 'v) list \<Rightarrow> bool" where
  "dict_in k d \<longleftrightarrow> k \<in> set (map fst d)"

section \<open>The durable store\<close>

text \<open>
  What \<^verbatim>\<open>open\<close> and \<^verbatim>\<open>json.load\<close> make of \<^verbatim>\<open>data/filters.json\<close>: the file is absent;
  opening or reading it raises \<^verbatim>\<open>IOError\<close>; its bytes are not UTF-8
  (\<^verbatim>\<open>UnicodeDecodeError\<close>, a \<^verbatim>\<open>ValueError\<close> that is neither an \<^verbatim>\<open>IOError\<close> nor
  a \<^verbatim>\<open>JSONDecodeError\<close>); its text is not JSON (\<^verbatim>\<open>JSONDecodeError\<close>); it holds a JSON
  object, given by its members in order; or it holds another JSON value. The members'
  values are never inspected by the code that loads and saves, so their type is a
  parameter; \<^verbatim>\<open>json.dump\<close> followed by \<^verbatim>\<open>json.load\<close> gives such a value back unchanged.
\<close>

datatype 'v file_state =
    NoFile
  | ReadFails
  | NotUtf8
  | NotJson
  | JsonObject "(string \<times> 'v) list"
  | JsonOther

datatype log_entry =
    ErrorLoadingFilters
  | ErrorSavingFilters
  | ErrorRemovingImage
  | ErrorDownloadingImage

text \<open>
  The comprehension \<^verbatim>\<open>{int(k): v for k, v in data.items()}\<close>: the keys are converted
  one after the other, and the first key that is not a numeral raises.
\<close>

fun load_items :: "(string \<times> 'v) list \<Rightarrow> (int \<times> 'v) list \<Rightarrow> py_error + (int \<times> 'v) list" where
  "load_items [] acc = Inr acc"
| "load_items ((k, v) # kvs) acc =
     (case py_int k of
        None \<Rightarrow> Inl ValueError
      | Some n \<Rightarrow> load_items kvs (dict_set acc n v))"

text \<open>
  \<^verbatim>\<open>load_filters\<close>: the result, or the exception that leaves the function, and the
  lines it logs. Only \<^verbatim>\<open>JSONDecodeError\<close> and \<^verbatim>\<open>IOError\<close> are caught.
\<close>

definition load_filters :: "'v file_state \<Rightarrow> (py_error + (int \<times> 'v) list) \<times> log_entry list" where
  "load_filters f =
     (case f of
        NoFile \<Rightarrow> (Inr [], [])
      | ReadFails \<Rightarrow> (Inr [], [ErrorLoadingFilters])
      | NotJson \<Rightarrow> (Inr [], [ErrorLoadingFilters])
      | NotUtf8 \<Rightarrow> (Inl UnicodeDecodeError, [])
      | JsonOther \<Rightarrow> (Inl AttributeError, [])
      | JsonObject kvs \<Rightarrow> (load_items kvs [], []))"

text \<open>
  Writing is up to the environment: it goes through, or \<^verbatim>\<open>open\<close> or the dump raises
  \<^verbatim>\<open>IOError\<close> and leaves the file in some state.
\<close>

datatype 'v write_outcome = Written | WriteFails "'v file_state"

text \<open>The comprehension \<^verbatim>\<open>{str(k): v for k, v in filters_data.items()}\<close>.\<close>

definition save_items :: "(int \<times> 'v) list \<Rightarrow> (string \<times> 'v) list" where
  "save_items filters_data = foldl (\<lambda>acc (k, v). dict_set acc (py_str k) v) [] filters_data"

text \<open>\<^verbatim>\<open>save_filters\<close>: its result, the file afterwards and the lines it logs.\<close>

definition save_filters ::
  "(int \<times> 'v) list \<Rightarrow> 'v write_outcome \<Rightarrow> bool \<times> 'v file_state \<times> log_entry list" where
  "save_filters filters_data env =
     (case env of
        Written \<Rightarrow> (True, JsonObject (save_items filters_data), [])
      | WriteFails left \<Rightarrow> (False, left, [ErrorSavingFilters]))"

section \<open>The conversation\<close>

record button =
  button_text :: string
  button_url :: string

record filter_data =
  fd_image :: "string option"
  fd_buttons :: "button list"
  fd_created_by :: int
  fd_created_at :: string

type_synonym chat_filters = "(string \<times> filter_data) list"

type_synonym store = "(int \<times> chat_filters) list"

text \<open>
  \<^verbatim>\<open>context.user_data\<close>: each key is absent (\<open>None\<close>) or present. The two image keys can
  be present with the value \<^verbatim>\<open>None\<close>, which is \<open>Some None\<close>.
\<close>

record session_data =
  filter_chat_id :: "int option"
  timeout_job :: "string option"
  filter_image_path :: "string option option"
  filter_image_filename :: "string option option"
  filter_buttons :: "button list option"

definition cleared :: session_data where
  "cleared = \<lparr>filter_chat_id = None, timeout_job = None, filter_image_path = None,
     filter_image_filename = None, filter_buttons = None\<rparr>"

record job =
  job_name :: string
  job_chat_id :: int
  job_user_id :: int

text \<open>The messages the handlers send, by kind, with the values they interpolate.\<close>

datatype reply =
    OperationCanceled
  | TooQuickly
  | NeedAdmin
  | AskImage
  | TimesUp
  | ImageReceived
  | DownloadFailed
  | SkippedImage
  | SkippedButtons
  | InvalidButtonFormat
  | InvalidUrl string
  | ButtonsPreview "button list list"
  | AskTrigger
  | TriggerExists string
  | SaveIssue
  | FilterCreated string bool nat

datatype conv_state = AWAITING_IMAGE | AWAITING_BUTTONS | AWAITING_FILTER_TRIGGER | END

text \<open>
  Everything a handler reads and writes: the two module dictionaries, the storage file
  and the image files, the user's \<^verbatim>\<open>user_data\<close>, the job queue, the messages sent (with
  the chat they went to) and the log. \<open>next_write\<close> and \<open>remove_ok\<close> are the environment's
  answers to the next write of the storage file and to \<^verbatim>\<open>os.remove\<close>. Sending a message
  is taken to succeed.
\<close>

record world =
  filters_cache :: store
  filters_file :: "chat_filters file_state"
  next_write :: "chat_filters write_outcome"
  user_request_tracker :: tracker
  user_data :: session_data
  job_queue :: "job list"
  image_files :: "string list"
  remove_ok :: bool
  sent :: "(int \<times> reply) list"
  error_log :: "log_entry list"

definition reply_text :: "int \<Rightarrow> reply \<Rightarrow> world \<Rightarrow> world" where
  "reply_text chat r w = w\<lparr>sent := sent w @ [(chat, r)]\<rparr>"

definition log_error :: "log_entry \<Rightarrow> world \<Rightarrow> world" where
  "log_error e w = w\<lparr>error_log := error_log w @ [e]\<rparr>"

definition IMAGES_DIR :: string where
  "IMAGES_DIR = ''data/images''"

subsection \<open>Cancelling and starting\<close>

text \<open>
  \<^verbatim>\<open>stop_conversation\<close>. When the key \<^verbatim>\<open>filter_image_path\<close> is present with the value
  \<^verbatim>\<open>None\<close>, \<^verbatim>\<open>os.path.exists(None)\<close> raises \<^verbatim>\<open>TypeError\<close> before anything is cleared.
\<close>

definition stop_conversation :: "int \<Rightarrow> world \<Rightarrow> (py_error + conv_state) \<times> world" where
  "stop_conversation chat w =
     (case filter_image_path (user_data w) of
        Some None \<Rightarrow> (Inl TypeError, w)
      | p \<Rightarrow>
         (let w1 = (case p of
                      Some (Some image_path) \<Rightarrow>
                        if image_path \<in> set (image_files w) then
                          (if remove_ok w
                           then w\<lparr>image_files := removeAll image_path (image_files w)\<rparr>
                           else log_error ErrorRemovingImage w)
                        else w
                    | _ \<Rightarrow> w)
          in (Inr END, reply_text chat OperationCanceled (w1\<lparr>user_data := cleared\<rparr>))))"

definition timeout_name :: "int \<Rightarrow> string" where
  "timeout_name user_id = ''filter_timeout_'' @ py_str user_id"

text \<open>
  \<^verbatim>\<open>filter_command\<close>, with the clock reading, whether the chat is a group or supergroup,
  and the answer of \<^verbatim>\<open>is_admin\<close> as arguments.
\<close>

definition filter_command ::
  "int \<Rightarrow> int \<Rightarrow> bool \<Rightarrow> bool \<Rightarrow> real \<Rightarrow> world \<Rightarrow> (py_error + conv_state) \<times> world" where
  "filter_command user_id chat_id in_group admin current_time w =
     (let (ok, tr) = check_rate_limit current_time user_id (user_request_tracker w);
          w1 = w\<lparr>user_request_tracker := tr\<rparr>
      in if \<not> ok then (Inr END, reply_text chat_id TooQuickly w1)
         else if in_group \<and> \<not> admin then (Inr END, reply_text chat_id NeedAdmin w1)
         else
           (let w2 = w1\<lparr>user_data := (user_data w1)\<lparr>filter_chat_id := Some chat_id\<rparr>\<rparr>;
                w3 = reply_text chat_id AskImage w2;
                w4 = w3\<lparr>job_queue := job_queue w3 @
                       [\<lparr>job_name = timeout_name user_id, job_chat_id = chat_id,
                         job_user_id = user_id\<rparr>]\<rparr>;
                w5 = w4\<lparr>user_data := (user_data w4)\<lparr>timeout_job := Some (timeout_name user_id)\<rparr>\<rparr>
            in (Inr AWAITING_IMAGE, w5)))"

text \<open>\<^verbatim>\<open>timeout_callback\<close>, run for a job of the queue.\<close>

definition timeout_callback :: "job \<Rightarrow> world \<Rightarrow> world" where
  "timeout_callback j w = w\<lparr>sent := sent w @ [(job_chat_id j, TimesUp)]\<rparr>"

subsection \<open>The image step\<close>

text \<open>
  The start of \<^verbatim>\<open>receive_image\<close> and of \<^verbatim>\<open>skip_image\<close>: every job registered under
  the name kept in \<^verbatim>\<open>user_data\<close> is removed from the queue.
\<close>

definition cancel_timeout :: "world \<Rightarrow> world" where
  "cancel_timeout w =
     (case timeout_job (user_data w) of
        None \<Rightarrow> w
      | Some job_name' \<Rightarrow>
          if job_name' = [] then w
          else w\<lparr>job_queue := filter (\<lambda>j. job_name j \<noteq> job_name') (job_queue w)\<rparr>)"

text \<open>What the transport does with the photo: both calls can raise \<^verbatim>\<open>TelegramError\<close>.\<close>

datatype transfer = GetFileFails | DownloadFails | Downloaded

text \<open>
  \<^verbatim>\<open>receive_image\<close>, with the transport's answer and the formatted clock reading as
  arguments. A missing \<^verbatim>\<open>filter_chat_id\<close> raises \<^verbatim>\<open>KeyError\<close>, which the handler does
  not catch.
\<close>

definition receive_image ::
  "int \<Rightarrow> transfer \<Rightarrow> string \<Rightarrow> world \<Rightarrow> (py_error + conv_state) \<times> world" where
  "receive_image chat tr timestamp w =
     (let w1 = cancel_timeout w in
      if tr = GetFileFails
      then (Inr END, reply_text chat DownloadFailed (log_error ErrorDownloadingImage w1))
      else
        (case filter_chat_id (user_data w1) of
           None \<Rightarrow> (Inl KeyError, w1)
         | Some chat_id \<Rightarrow>
            (let filename = py_str chat_id @ ''_'' @ timestamp @ ''.jpg'';
                 image_path = IMAGES_DIR @ ''/'' @ filename
             in if tr = DownloadFails
                then (Inr END, reply_text chat DownloadFailed (log_error ErrorDownloadingImage w1))
                else
                  (let w2 = w1\<lparr>image_files := List.insert image_path (image_files w1)\<rparr>;
                       w3 = w2\<lparr>user_data := (user_data w2)
                              \<lparr>filter_image_path := Some (Some image_path),
                               filter_image_filename := Some (Some filename)\<rparr>\<rparr>
                   in (Inr AWAITING_BUTTONS, reply_text chat ImageReceived w3)))))"

definition skip_image :: "int \<Rightarrow> world \<Rightarrow> (py_error + conv_state) \<times> world" where
  "skip_image chat w =
     (let w1 = cancel_timeout w;
          w2 = w1\<lparr>user_data := (user_data w1)
                 \<lparr>filter_image_path := Some None, filter_image_filename := Some None\<rparr>\<rparr>
      in (Inr AWAITING_BUTTONS, reply_text chat SkippedImage w2))"

subsection \<open>The buttons step\<close>

text \<open>
  The loop over \<^verbatim>\<open>button_definitions\<close>: the buttons collected so far are the
  accumulator, and each of the two early returns is the message it sends.
\<close>

fun parse_definitions :: "string list \<Rightarrow> button list \<Rightarrow> reply + button list" where
  "parse_definitions [] buttons_data = Inr buttons_data"
| "parse_definitions (button_def # rest) buttons_data =
     (if CHR ''|'' \<notin> set button_def then Inl InvalidButtonFormat
      else
        (let parts = split_once CHR ''|'' button_def;
             text' = strip (fst parts);
             url = strip (snd parts)
         in if \<not> (startswith url ''http://'' \<or> startswith url ''https://'')
            then Inl (InvalidUrl url)
            else parse_definitions rest
                   (buttons_data @ [\<lparr>button_text = text', button_url = url\<rparr>])))"

definition button_definitions :: "string \<Rightarrow> string list" where
  "button_definitions message_text = map strip (split_sep CHR '','' (strip message_text))"

definition parse_buttons :: "string \<Rightarrow> reply + button list" where
  "parse_buttons message_text = parse_definitions (button_definitions message_text) []"

text \<open>
  The loop in words, for stating what it computes: the url of a segment is what follows
  its first \<open>|\<close>, trimmed; a segment passes when it contains \<open>|\<close> and its url starts with
  one of the two schemes; a segment that passes makes a button; a segment that does not
  is answered by the message of the check it fails.
\<close>

definition url_of :: "string \<Rightarrow> string" where
  "url_of seg = strip (snd (split_once CHR ''|'' seg))"

definition segment_ok :: "string \<Rightarrow> bool" where
  "segment_ok seg \<longleftrightarrow>
     CHR ''|'' \<in> set seg \<and> (startswith (url_of seg) ''http://'' \<or> startswith (url_of seg) ''https://'')"

definition to_button :: "string \<Rightarrow> button" where
  "to_button seg = \<lparr>button_text = strip (fst (split_once CHR ''|'' seg)), button_url = url_of seg\<rparr>"

definition complaint_of :: "string \<Rightarrow> reply" where
  "complaint_of seg = (if CHR ''|'' \<in> set seg then InvalidUrl (url_of seg) else InvalidButtonFormat)"

text \<open>The preview keyboard: rows of two buttons, the last row possibly of one.\<close>

fun keyboard :: "button list \<Rightarrow> button list list" where
  "keyboard (a # b # rest) = [a, b] # keyboard rest"
| "keyboard [a] = [[a]]"
| "keyboard [] = []"

definition receive_buttons :: "int \<Rightarrow> string \<Rightarrow> world \<Rightarrow> (py_error + conv_state) \<times> world" where
  "receive_buttons chat message_text w =
     (if message_text = ''/skip''
      then (Inr AWAITING_FILTER_TRIGGER,
            reply_text chat SkippedButtons
              (w\<lparr>user_data := (user_data w)\<lparr>filter_buttons := Some []\<rparr>\<rparr>))
      else
        (case parse_buttons message_text of
           Inl complaint \<Rightarrow> (Inr AWAITING_BUTTONS, reply_text chat complaint w)
         | Inr buttons_data \<Rightarrow>
             (Inr AWAITING_FILTER_TRIGGER,
              reply_text chat AskTrigger
                (reply_text chat (ButtonsPreview (keyboard buttons_data))
                   (w\<lparr>user_data := (user_data w)\<lparr>filter_buttons := Some buttons_data\<rparr>\<rparr>)))))"

subsection \<open>The trigger step\<close>

definition trigger_of :: "string \<Rightarrow> string" where
  "trigger_of message_text = lower (strip message_text)"

text \<open>
  \<^verbatim>\<open>if not filters_cache: filters_cache = load_filters()\<close>: the dictionary the handler goes
  on with, or the exception of the load, and the lines logged.
\<close>

definition ensure_loaded :: "world \<Rightarrow> (py_error + store) \<times> log_entry list" where
  "ensure_loaded w =
     (if filters_cache w = [] then load_filters (filters_file w) else (Inr (filters_cache w), []))"

text \<open>
  The dictionary \<^verbatim>\<open>filter_data\<close>: \<^verbatim>\<open>user_data.get('filter_image_filename')\<close> is
  \<^verbatim>\<open>None\<close> for an absent key as for a key holding \<^verbatim>\<open>None\<close>, and
  \<^verbatim>\<open>user_data.get('filter_buttons', [])\<close> is the empty list for an absent key.
\<close>

definition staged_filter :: "int \<Rightarrow> string \<Rightarrow> session_data \<Rightarrow> filter_data" where
  "staged_filter user_id now_iso ud =
     \<lparr>fd_image = (case filter_image_filename ud of
                     Some (Some filename) \<Rightarrow> Some filename
                   | _ \<Rightarrow> None),
      fd_buttons = (case filter_buttons ud of None \<Rightarrow> [] | Some bs \<Rightarrow> bs),
      fd_created_by = user_id,
      fd_created_at = now_iso\<rparr>"

text \<open>
  \<^verbatim>\<open>receive_filter_trigger\<close>, with the sender and the formatted clock reading as
  arguments.
\<close>

definition receive_filter_trigger ::
  "int \<Rightarrow> int \<Rightarrow> string \<Rightarrow> string \<Rightarrow> world \<Rightarrow> (py_error + conv_state) \<times> world" where
  "receive_filter_trigger chat user_id now_iso message_text w =
     (let trigger = trigger_of message_text in
      case filter_chat_id (user_data w) of
        None \<Rightarrow> (Inl KeyError, w)
      | Some chat_id \<Rightarrow>
         (case ensure_loaded w of
            (Inl e, lines) \<Rightarrow> (Inl e, w\<lparr>error_log := error_log w @ lines\<rparr>)
          | (Inr cache, lines) \<Rightarrow>
             (let w1 = w\<lparr>filters_cache := cache, error_log := error_log w @ lines\<rparr>;
                  chat_filters = dict_get cache chat_id []
              in if dict_in trigger chat_filters
                 then (Inr AWAITING_FILTER_TRIGGER, reply_text chat (TriggerExists trigger) w1)
                 else
                   (let fd = staged_filter user_id now_iso (user_data w1);
                        cache1 = (if dict_in chat_id cache then cache
                                  else dict_set cache chat_id []);
                        cache2 = dict_set cache1 chat_id
                                   (dict_set (dict_get cache1 chat_id []) trigger fd);
                        (ok, file', lines') = save_filters cache2 (next_write w1);
                        w2 = w1\<lparr>filters_cache := cache2, filters_file := file',
                               error_log := error_log w1 @ lines'\<rparr>;
                        w3 = (if ok then w2 else reply_text chat SaveIssue w2);
                        w4 = reply_text chat
                               (FilterCreated trigger
                                  (fd_image fd \<noteq> None \<and> fd_image fd \<noteq> Some [])
                                  (length (fd_buttons fd))) w3
                    in (Inr END, w4\<lparr>user_data := cleared\<rparr>)))))"

subsection \<open>Dispatch\<close>

text \<open>What reaches the conversation of one user in one chat.\<close>

datatype event =
    FilterCommand bool bool real
  | Photo transfer string
  | SkipCommand
  | StopCommand
  | TextMessage string string
  | TimeoutFires

text \<open>
  Modelled from the spec: the registration of the handlers with the conversation
  handler is not in the source file. Following the spec's table of states: the authoring
  command enters from Idle (\<open>END\<close>); in \<open>AWAITING_IMAGE\<close> a photo goes to
  \<^verbatim>\<open>receive_image\<close> and \<^verbatim>\<open>/skip\<close> to \<^verbatim>\<open>skip_image\<close>; in \<open>AWAITING_BUTTONS\<close> text and
  \<^verbatim>\<open>/skip\<close> go to \<^verbatim>\<open>receive_buttons\<close>; in \<open>AWAITING_FILTER_TRIGGER\<close> text goes to
  \<^verbatim>\<open>receive_filter_trigger\<close>; \<^verbatim>\<open>/stop\<close> goes to \<^verbatim>\<open>stop_conversation\<close> in every state but
  Idle; any other input is ignored. The value a handler returns is the next state, and a
  handler that raises leaves the state as it was. A job that fires leaves the queue and
  runs \<^verbatim>\<open>timeout_callback\<close>, whose result the conversation handler never sees.
\<close>

definition settle :: "conv_state \<Rightarrow> (py_error + conv_state) \<times> world \<Rightarrow> conv_state \<times> world" where
  "settle st r = (case fst r of Inl e \<Rightarrow> (st, snd r) | Inr st' \<Rightarrow> (st', snd r))"

fun dispatch :: "int \<Rightarrow> int \<Rightarrow> event \<Rightarrow> conv_state \<times> world \<Rightarrow> conv_state \<times> world" where
  "dispatch user_id chat TimeoutFires (st, w) =
     (case job_queue w of
        [] \<Rightarrow> (st, w)
      | j # js \<Rightarrow> (st, timeout_callback j (w\<lparr>job_queue := js\<rparr>)))"
| "dispatch user_id chat (FilterCommand in_group admin current_time) (END, w) =
     settle END (filter_command user_id chat in_group admin current_time w)"
| "dispatch user_id chat (Photo tr timestamp) (AWAITING_IMAGE, w) =
     settle AWAITING_IMAGE (receive_image chat tr timestamp w)"
| "dispatch user_id chat SkipCommand (AWAITING_IMAGE, w) =
     settle AWAITING_IMAGE (skip_image chat w)"
| "dispatch user_id chat SkipCommand (AWAITING_BUTTONS, w) =
     settle AWAITING_BUTTONS (receive_buttons chat ''/skip'' w)"
| "dispatch user_id chat (TextMessage message_text now_iso) (AWAITING_BUTTONS, w) =
     settle AWAITING_BUTTONS (receive_buttons chat message_text w)"
| "dispatch user_id chat (TextMessage message_text now_iso) (AWAITING_FILTER_TRIGGER, w) =
     settle AWAITING_FILTER_TRIGGER (receive_filter_trigger chat user_id now_iso message_text w)"
| "dispatch user_id chat StopCommand (END, w) = (END, w)"
| "dispatch user_id chat StopCommand (st, w) = settle st (stop_conversation chat w)"
| "dispatch user_id chat ev (st, w) = (st, w)"

text \<open>A run of events, and the world in which the program starts.\<close>

definition run :: "int \<Rightarrow> int \<Rightarrow> event list \<Rightarrow> conv_state \<times> world \<Rightarrow> conv_state \<times> world" where
  "run user_id chat evs c = foldl (\<lambda>c ev. dispatch user_id chat ev c) c evs"

definition initial :: world where
  "initial = \<lparr>filters_cache = [], filters_file = NoFile, next_write = Written,
     user_request_tracker = Map.empty, user_data = cleared, job_queue = [],
     image_files = [], remove_ok = True, sent = [], error_log = []\<rparr>"

section \<open>Sample worlds\<close>

text \<open>
  Worlds for the concrete runs below. \<open>awaiting\<close> is the world after user 7 has sent the
  authoring command in chat 100 at clock reading 0; \<open>in_buttons_step\<close> is a world in
  which an image is staged; \<open>in_trigger_step\<close> is a world in which chat 100 has the
  filter \<open>hello\<close> and user 7 has skipped image and buttons.
\<close>

definition awaiting :: world where
  "awaiting = initial
     \<lparr>user_request_tracker := [7 \<mapsto> [0]],
      user_data := cleared\<lparr>filter_chat_id := Some 100, timeout_job := Some ''filter_timeout_7''\<rparr>,
      job_queue := [\<lparr>job_name = ''filter_timeout_7'', job_chat_id = 100, job_user_id = 7\<rparr>],
      sent := [(100, AskImage)]\<rparr>"

definition in_buttons_step :: world where
  "in_buttons_step = initial
     \<lparr>user_data := cleared
        \<lparr>filter_chat_id := Some 100, timeout_job := Some ''filter_timeout_7'',
         filter_image_path := Some (Some ''data/images/100_20240101_120000.jpg''),
         filter_image_filename := Some (Some ''100_20240101_120000.jpg'')\<rparr>,
      image_files := [''data/images/100_20240101_120000.jpg'']\<rparr>"

definition greeting :: filter_data where
  "greeting = \<lparr>fd_image = None, fd_buttons = [], fd_created_by = 7,
     fd_created_at = ''2024-01-01T12:00:00''\<rparr>"

definition in_trigger_step :: world where
  "in_trigger_step = initial
     \<lparr>filters_cache := [(100, [(''hello'', greeting)])],
      user_data := cleared
        \<lparr>filter_chat_id := Some 100, timeout_job := Some ''filter_timeout_7'',
         filter_image_path := Some None, filter_image_filename := Some None,
         filter_buttons := Some []\<rparr>\<rparr>"

section \<open>Properties of the rate limiter\<close>

lemma window_le: "reachable tr \<Longrightarrow> length (window tr uid) \<le> RATE_LIMIT"
proof (induction arbitrary: uid rule: reachable.induct)
  case start
  show ?case by (simp add: window_def)
next
  case (call tr current_time user_id)
  have "length (fresh current_time (window tr uid)) \<le> length (window tr uid)"
    by (simp add: fresh_def)
  with call.IH [of uid] have f: "length (fresh current_time (window tr uid)) \<le> RATE_LIMIT"
    by simp
  show ?case
    using f call.IH [of uid]
    by (auto simp: check_rate_limit_def prune_def window_def Let_def RATE_LIMIT_def
             split: option.splits if_splits)
qed

lemma allowed_iff:
  "fst (check_rate_limit now uid tr) \<longleftrightarrow> length (fresh now (window tr uid)) < RATE_LIMIT"
  by (auto simp: check_rate_limit_def prune_def window_def Let_def RATE_LIMIT_def fresh_def
           split: option.splits if_splits)

lemma window_after:
  "window (snd (check_rate_limit now uid tr)) uid =
     (if length (fresh now (window tr uid)) < RATE_LIMIT
      then fresh now (window tr uid) @ [now] else fresh now (window tr uid))"
  by (auto simp: check_rate_limit_def prune_def window_def Let_def RATE_LIMIT_def fresh_def
           split: option.splits if_splits)

lemma tracker_after:
  "snd (check_rate_limit now uid tr) =
     (if length (fresh now (window tr uid)) < RATE_LIMIT
      then (prune now tr)(uid \<mapsto> fresh now (window tr uid) @ [now]) else prune now tr)"
  by (auto simp: check_rate_limit_def prune_def window_def Let_def RATE_LIMIT_def fresh_def
           split: option.splits if_splits)

lemma fresh_full: "length (fresh now ts) = length ts \<Longrightarrow> fresh now ts = ts"
  unfolding fresh_def
  by (metis filter_True length_filter_less nat_neq_iff)


lemma scenario:
  assumes "fresh t1 (window tr uid) = []"
    and "t1 \<le> t2" "t2 \<le> t3" "t3 \<le> t4" "t4 \<le> t5" "t5 \<le> t6" "t6 - t1 < TIME_WINDOW"
    and "t6 \<le> t7" "TIME_WINDOW \<le> t7 - t1"
  shows "calls [t1, t2, t3, t4, t5, t6, t7] uid tr = [True, True, True, True, True, False, True]"
  using assms
  apply (simp add: allowed_iff window_after)
  apply (simp add: fresh_def RATE_LIMIT_def TIME_WINDOW_def)
  done

lemma window_prune: "window (prune now tr) uid = fresh now (window tr uid)"
  by (simp add: prune_def window_def fresh_def split: option.splits)

text \<open>
  C1. From any tracker the program can reach, \<^verbatim>\<open>check_rate_limit\<close> returns true and
  appends the clock reading to the caller's window exactly when the window, once the
  entries of age \<open>TIME_WINDOW\<close> or more are pruned, holds fewer than \<open>RATE_LIMIT\<close>
  entries; otherwise it returns false and the caller's window is what it was. So five
  calls of one user within sixty seconds are admitted, a sixth within the same sixty
  seconds is denied, and a call sixty seconds or more after the first is admitted again.
\<close>

theorem check_rate_limit_sliding_window:
  assumes "reachable tr"
  shows "(length (fresh now (window tr uid)) < RATE_LIMIT \<longrightarrow>
            check_rate_limit now uid tr =
              (True, (prune now tr)(uid \<mapsto> fresh now (window tr uid) @ [now])))
       \<and> (\<not> length (fresh now (window tr uid)) < RATE_LIMIT \<longrightarrow>
            check_rate_limit now uid tr = (False, prune now tr)
            \<and> window (prune now tr) uid = window tr uid)
       \<and> (fresh t1 (window tr uid) = [] \<and> t1 \<le> t2 \<and> t2 \<le> t3 \<and> t3 \<le> t4 \<and> t4 \<le> t5
            \<and> t5 \<le> t6 \<and> t6 - t1 < TIME_WINDOW \<and> t6 \<le> t7 \<and> TIME_WINDOW \<le> t7 - t1 \<longrightarrow>
            calls [t1, t2, t3, t4, t5, t6, t7] uid tr =
              [True, True, True, True, True, False, True])"
proof (intro conjI impI)
  assume "length (fresh now (window tr uid)) < RATE_LIMIT"
  then show "check_rate_limit now uid tr =
      (True, (prune now tr)(uid \<mapsto> fresh now (window tr uid) @ [now]))"
    using allowed_iff [of now uid tr] tracker_after [of now uid tr]
    by (simp add: prod_eq_iff)
next
  assume full: "\<not> length (fresh now (window tr uid)) < RATE_LIMIT"
  then show "check_rate_limit now uid tr = (False, prune now tr)"
    using allowed_iff [of now uid tr] tracker_after [of now uid tr]
    by (simp add: prod_eq_iff)
  have "length (fresh now (window tr uid)) \<le> length (window tr uid)"
    by (simp add: fresh_def)
  with full window_le [OF assms, of uid]
  have "length (fresh now (window tr uid)) = length (window tr uid)"
    by simp
  then show "window (prune now tr) uid = window tr uid"
    by (simp add: window_prune fresh_full)
next
  assume "fresh t1 (window tr uid) = [] \<and> t1 \<le> t2 \<and> t2 \<le> t3 \<and> t3 \<le> t4 \<and> t4 \<le> t5
            \<and> t5 \<le> t6 \<and> t6 - t1 < TIME_WINDOW \<and> t6 \<le> t7 \<and> TIME_WINDOW \<le> t7 - t1"
  then show "calls [t1, t2, t3, t4, t5, t6, t7] uid tr =
              [True, True, True, True, True, False, True]"
    by (intro scenario) simp_all
qed

theorem check_rate_limit_sliding_window_witness:
  "check_rate_limit 10 7 Map.empty = (True, [7 \<mapsto> [10]])
   \<and> check_rate_limit 50 7 [7 \<mapsto> [0, 10, 20, 30, 40]] = (False, [7 \<mapsto> [0, 10, 20, 30, 40]])
   \<and> check_rate_limit 60 7 [7 \<mapsto> [0, 10, 20, 30, 40]] = (True, [7 \<mapsto> [10, 20, 30, 40, 60]])
   \<and> calls [0, 10, 20, 30, 40, 50, 60] 7 Map.empty =
        [True, True, True, True, True, False, True]"
proof -
  have r0: "reachable Map.empty"
    by (rule reachable.start)
  have step: "snd (check_rate_limit t 7 [7 \<mapsto> ts]) = [7 \<mapsto> ts @ [t]]"
    if "fresh t ts = ts" "length ts < 5" "ts \<noteq> []" for t ts
    using that by (auto simp: check_rate_limit_def prune_def RATE_LIMIT_def)
  have "reachable (snd (check_rate_limit 0 7 Map.empty))"
    by (rule reachable.call [OF r0])
  then have "reachable [7 \<mapsto> [0]]"
    by (simp add: check_rate_limit_def prune_def)
  from reachable.call [OF this, of 10 7] have "reachable [7 \<mapsto> [0, 10]]"
    by (simp add: step fresh_def TIME_WINDOW_def)
  from reachable.call [OF this, of 20 7] have "reachable [7 \<mapsto> [0, 10, 20]]"
    by (simp add: step fresh_def TIME_WINDOW_def)
  from reachable.call [OF this, of 30 7] have "reachable [7 \<mapsto> [0, 10, 20, 30]]"
    by (simp add: step fresh_def TIME_WINDOW_def)
  from reachable.call [OF this, of 40 7] have r5: "reachable [7 \<mapsto> [0, 10, 20, 30, 40]]"
    by (simp add: step fresh_def TIME_WINDOW_def)
  have p0: "prune 10 Map.empty = Map.empty"
    by (simp add: prune_def)
  have p50: "prune 50 [7 \<mapsto> [0, 10, 20, 30, 40]] = [7 \<mapsto> [0, 10, 20, 30, 40]]"
    by (rule ext) (simp add: prune_def fresh_def TIME_WINDOW_def)
  have p60: "prune 60 [7 \<mapsto> [0, 10, 20, 30, 40]] = [7 \<mapsto> [10, 20, 30, 40]]"
    by (rule ext) (simp add: prune_def fresh_def TIME_WINDOW_def)
  show ?thesis
    using check_rate_limit_sliding_window [OF r0, of 10 7 0 10 20 30 40 50 60]
      check_rate_limit_sliding_window [OF r5, of 50 7]
      check_rate_limit_sliding_window [OF r5, of 60 7]
    by (simp add: p0 p50 p60 window_def fresh_def RATE_LIMIT_def TIME_WINDOW_def)
qed

section \<open>Properties of the durable store\<close>

lemma digit_cases: "d < 10 \<Longrightarrow> d \<in> {0, 1, 2, 3, 4, 5, 6, 7, 8, 9 :: nat}"
  by auto

lemma is_digit_digit_char: "d < 10 \<Longrightarrow> is_digit (digit_char d)"
  using digit_cases [of d] by (auto simp: is_digit_def digit_char_def)

lemma digit_val_digit_char: "d < 10 \<Longrightarrow> digit_val (digit_char d) = d"
  using digit_cases [of d] by (auto simp: digit_val_def digit_char_def)

lemma digit_not_blank: "is_digit c \<Longrightarrow> \<not> int_space c"
  by (auto simp: is_digit_def int_space_def)

lemma digit_not_sign: "is_digit c \<Longrightarrow> c \<noteq> CHR ''-'' \<and> c \<noteq> CHR ''+''"
  by (auto simp: is_digit_def)

lemma str_nat_digits: "\<forall>c \<in> set (str_nat n). is_digit c"
proof (induction n rule: str_nat.induct)
  case (1 n)
  show ?case
  proof (cases "n < 10")
    case True
    then show ?thesis
      by (subst str_nat.simps) (simp add: is_digit_digit_char)
  next
    case False
    with "1.IH" show ?thesis
      by (subst str_nat.simps) (simp add: is_digit_digit_char)
  qed
qed

lemma str_nat_nonempty: "str_nat n \<noteq> []"
  by (subst str_nat.simps) simp

lemma parse_digits_decimal:
  "\<forall>c \<in> set s. is_digit c \<Longrightarrow> parse_digits s acc = Some (decimal s acc)"
  by (induction s arbitrary: acc) (simp_all add: decimal_def)

lemma parse_nat_decimal:
  "s \<noteq> [] \<Longrightarrow> \<forall>c \<in> set s. is_digit c \<Longrightarrow> parse_nat s = Some (decimal s 0)"
  by (cases s) (simp_all add: parse_nat_def parse_digits_decimal, simp add: decimal_def)

lemma decimal_str_nat: "decimal (str_nat n) 0 = n"
proof (induction n rule: str_nat.induct)
  case (1 n)
  show ?case
  proof (cases "n < 10")
    case True
    then show ?thesis
      by (subst str_nat.simps) (simp add: decimal_def digit_val_digit_char)
  next
    case False
    with "1.IH" have "decimal (str_nat (n div 10)) 0 = n div 10"
      by simp
    with False show ?thesis
      by (subst str_nat.simps) (simp add: decimal_def digit_val_digit_char)
  qed
qed

lemma parse_nat_str_nat: "parse_nat (str_nat n) = Some n"
  by (simp add: parse_nat_decimal str_nat_nonempty str_nat_digits decimal_str_nat)

lemma unpadded:
  assumes "s \<noteq> []" "\<not> int_space (hd s)" "\<not> int_space (last s)"
  shows "rev (dropWhile int_space (rev (dropWhile int_space s))) = s"
proof -
  from assms have a: "dropWhile int_space s = s"
    by (cases s) simp_all
  from assms have "rev s \<noteq> []" "\<not> int_space (hd (rev s))"
    by (simp_all add: hd_rev)
  then have "dropWhile int_space (rev s) = rev s"
    by (cases "rev s") simp_all
  with a show ?thesis by simp
qed

lemma str_nat_hd: "is_digit (hd (str_nat n))"
  using str_nat_digits [of n] str_nat_nonempty [of n] by (cases "str_nat n") simp_all

lemma str_nat_last: "is_digit (last (str_nat n))"
  using str_nat_digits [of n] str_nat_nonempty [of n] by (meson last_in_set)

lemma py_int_py_str: "py_int (py_str k) = Some k"
proof (cases "k < 0")
  case True
  let ?s = "CHR ''-'' # str_nat (nat (- k))"
  have "rev (dropWhile int_space (rev (dropWhile int_space ?s))) = ?s"
    by (rule unpadded)
       (simp_all add: str_nat_nonempty str_nat_last digit_not_blank, simp add: int_space_def)
  with True show ?thesis
    by (simp add: py_int_def py_str_def parse_nat_str_nat)
next
  case False
  let ?s = "str_nat (nat k)"
  have u: "rev (dropWhile int_space (rev (dropWhile int_space ?s))) = ?s"
    by (rule unpadded) (simp_all add: str_nat_nonempty str_nat_hd str_nat_last digit_not_blank)
  obtain c cs where s: "?s = c # cs"
    using str_nat_nonempty [of "nat k"] by (cases ?s) auto
  with str_nat_hd [of "nat k"] have "is_digit c" by simp
  then have "c \<noteq> CHR ''-''" "c \<noteq> CHR ''+''"
    using digit_not_sign by blast+
  with False u s parse_nat_str_nat [of "nat k"] show ?thesis
    by (simp add: py_int_def py_str_def)
qed

lemma py_str_inj: "py_str a = py_str b \<Longrightarrow> a = b"
  by (metis py_int_py_str option.inject)

lemma dict_set_new: "k \<notin> fst ` set d \<Longrightarrow> dict_set d k v = d @ [(k, v)]"
  by (induction d) auto

lemma foldl_save:
  assumes "distinct (map fst d)" "\<forall>k \<in> fst ` set d. py_str k \<notin> fst ` set acc"
  shows "foldl (\<lambda>acc (k, v). dict_set acc (py_str k) v) acc d =
           acc @ map (\<lambda>(k, v). (py_str k, v)) d"
  using assms
proof (induction d arbitrary: acc)
  case Nil
  show ?case by simp
next
  case (Cons kv d)
  obtain k v where kv: "kv = (k, v)" by (cases kv)
  from Cons.prems kv have new: "py_str k \<notin> fst ` set acc" by simp
  have "\<forall>k' \<in> fst ` set d. py_str k' \<notin> fst ` set (acc @ [(py_str k, v)])"
    using Cons.prems kv by (auto dest: py_str_inj)
  with Cons.IH [of "acc @ [(py_str k, v)]"] Cons.prems
  show ?case
    by (simp add: kv dict_set_new [OF new])
qed

lemma save_items_distinct:
  "distinct (map fst d) \<Longrightarrow> save_items d = map (\<lambda>(k, v). (py_str k, v)) d"
  using foldl_save [of d "[]"] by (simp add: save_items_def)

lemma load_items_saved:
  assumes "distinct (map fst d)" "\<forall>k \<in> fst ` set d. k \<notin> fst ` set acc"
  shows "load_items (map (\<lambda>(k, v). (py_str k, v)) d) acc = Inr (acc @ d)"
  using assms
proof (induction d arbitrary: acc)
  case Nil
  show ?case by simp
next
  case (Cons kv d)
  obtain k v where kv: "kv = (k, v)" by (cases kv)
  from Cons.prems kv have new: "k \<notin> fst ` set acc" by simp
  have "\<forall>k' \<in> fst ` set d. k' \<notin> fst ` set (acc @ [(k, v)])"
    using Cons.prems kv by auto
  with Cons.IH [of "acc @ [(k, v)]"] Cons.prems
  show ?case
    by (simp add: kv py_int_py_str dict_set_new [OF new])
qed

text \<open>
  C7. For every store (a dictionary, so its chat ids are distinct integers), a write
  that goes through followed by a load gives the store back: each chat id survives
  \<^verbatim>\<open>str\<close> and \<^verbatim>\<open>int\<close>, and the chats and their tables come back in the same order.
\<close>

theorem save_then_load:
  assumes "distinct (map fst filters_data)"
  shows "save_filters filters_data Written = (True, JsonObject (save_items filters_data), [])
       \<and> load_filters (JsonObject (save_items filters_data)) = (Inr filters_data, [])"
  using assms load_items_saved [of filters_data "[]"]
  by (simp add: save_filters_def load_filters_def save_items_distinct)

theorem save_then_load_witness:
  "save_filters [(- 100, [''hello'', ''bye'']), (7, [])] Written =
     (True, JsonObject [(''-100'', [''hello'', ''bye'']), (''7'', [])], [])
   \<and> load_filters (JsonObject [(''-100'', [''hello'', ''bye'']), (''7'', [])]) =
     (Inr [(- 100, [''hello'', ''bye'']), (7, [])], [])"
proof -
  have s: "save_items [(- 100, [''hello'', ''bye'']), (7 :: int, [])] =
      [(''-100'', [''hello'', ''bye'']), (''7'', [])]"
    by (simp add: save_items_def py_str_def str_nat.simps digit_char_def)
  show ?thesis
    using save_then_load [of "[(- 100, [''hello'', ''bye'']), (7, [])]"]
    by (simp add: s)
qed

lemma load_raises:
  "load_filters (JsonObject [(''abc'', v)]) = (Inl ValueError, [])"
  "load_filters NotUtf8 = (Inl UnicodeDecodeError, [])"
  "load_filters JsonOther = (Inl AttributeError, [])"
  by (simp_all add: load_filters_def py_int_def int_space_def parse_nat_def is_digit_def)

text \<open>
  C8. The code does not do what the claim says. \<^verbatim>\<open>load_filters\<close> returns the empty store
  for an absent file and for the two exceptions it catches (the read raising
  \<^verbatim>\<open>IOError\<close>, the text not being JSON), logging in the last two cases. It raises when
  the bytes are not UTF-8, when the JSON value is not an object, and when a key of the
  object is not an integer numeral.
\<close>

theorem load_filters_uncaught:
  "load_filters (NoFile :: chat_filters file_state) = (Inr [], [])
   \<and> load_filters (ReadFails :: chat_filters file_state) = (Inr [], [ErrorLoadingFilters])
   \<and> load_filters (NotJson :: chat_filters file_state) = (Inr [], [ErrorLoadingFilters])
   \<and> load_filters (JsonObject [(''abc'', [] :: chat_filters)]) = (Inl ValueError, [])
   \<and> load_filters (NotUtf8 :: chat_filters file_state) = (Inl UnicodeDecodeError, [])
   \<and> load_filters (JsonOther :: chat_filters file_state) = (Inl AttributeError, [])"
  by (simp add: load_raises) (simp add: load_filters_def)

section \<open>Properties of the buttons step\<close>

lemma parse_step_ok:
  "segment_ok seg \<Longrightarrow>
     parse_definitions (seg # rest) acc = parse_definitions rest (acc @ [to_button seg])"
  by (auto simp: segment_ok_def to_button_def url_of_def Let_def)

lemma parse_step_bad:
  "\<not> segment_ok seg \<Longrightarrow> parse_definitions (seg # rest) acc = Inl (complaint_of seg)"
  by (auto simp: segment_ok_def complaint_of_def url_of_def Let_def)

lemma parse_definitions_find:
  "parse_definitions segs acc =
     (case List.find (\<lambda>seg. \<not> segment_ok seg) segs of
        None \<Rightarrow> Inr (acc @ map to_button segs)
      | Some seg \<Rightarrow> Inl (complaint_of seg))"
proof (induction segs arbitrary: acc)
  case Nil
  show ?case by simp
next
  case (Cons seg segs)
  show ?case
  proof (cases "segment_ok seg")
    case True
    then have "parse_definitions (seg # segs) acc =
        parse_definitions segs (acc @ [to_button seg])"
      by (rule parse_step_ok)
    with True Cons.IH [of "acc @ [to_button seg]"] show ?thesis
      by (simp del: parse_definitions.simps split: option.splits)
  next
    case False
    then have "parse_definitions (seg # segs) acc = Inl (complaint_of seg)"
      by (rule parse_step_bad)
    with False show ?thesis
      by (simp del: parse_definitions.simps)
  qed
qed

lemma parse_buttons_find:
  "parse_buttons message_text =
     (case List.find (\<lambda>seg. \<not> segment_ok seg) (button_definitions message_text) of
        None \<Rightarrow> Inr (map to_button (button_definitions message_text))
      | Some seg \<Rightarrow> Inl (complaint_of seg))"
  by (simp only: parse_buttons_def parse_definitions_find append_Nil)

lemma two_buttons:
  "parse_buttons ''A|http://a.com, B|https://b.com'' =
     Inr [\<lparr>button_text = ''A'', button_url = ''http://a.com''\<rparr>,
          \<lparr>button_text = ''B'', button_url = ''https://b.com''\<rparr>]"
  by (simp add: parse_buttons_def button_definitions_def strip_def isspace_def split_once_def
        startswith_def)

lemma ftp_rejected: "parse_buttons ''A|ftp://x'' = Inl (InvalidUrl ''ftp://x'')"
  by (simp add: parse_buttons_def button_definitions_def strip_def isspace_def split_once_def
        startswith_def)

lemma no_bar_rejected: "parse_buttons ''A|http://a.com, B'' = Inl InvalidButtonFormat"
  by (simp add: parse_buttons_def button_definitions_def strip_def isspace_def split_once_def
        startswith_def)

lemma two_bars_accepted:
  "parse_buttons ''A|http://a.com|b'' = Inr [\<lparr>button_text = ''A'', button_url = ''http://a.com|b''\<rparr>]"
  by (simp add: parse_buttons_def button_definitions_def strip_def isspace_def split_once_def
        startswith_def)

lemma receive_buttons_complaint:
  assumes "message_text \<noteq> ''/skip''" "parse_buttons message_text = Inl c"
  shows "receive_buttons chat message_text w =
           (Inr AWAITING_BUTTONS, w\<lparr>sent := sent w @ [(chat, c)]\<rparr>)"
  using assms by (simp add: receive_buttons_def reply_text_def)

lemma bad_segment_complaint:
  assumes "\<exists>seg \<in> set (button_definitions message_text). \<not> segment_ok seg"
  shows "\<exists>seg. parse_buttons message_text = Inl (complaint_of seg)"
proof (cases "List.find (\<lambda>seg. \<not> segment_ok seg) (button_definitions message_text)")
  case None
  with assms show ?thesis
    by (auto simp: find_None_iff)
next
  case (Some seg)
  then show ?thesis
    by (auto simp: parse_buttons_find)
qed

text \<open>
  C5, as the claim states it, fails: a segment with two \<open>|\<close> is accepted, the second
  \<open>|\<close> becoming part of the url, and the report for a segment without \<open>|\<close> names no
  segment.
\<close>

theorem exactly_one_bar_counterexample:
  "count_list ''A|http://a.com|b'' CHR ''|'' = 2
   \<and> parse_buttons ''A|http://a.com|b'' =
       Inr [\<lparr>button_text = ''A'', button_url = ''http://a.com|b''\<rparr>]
   \<and> parse_buttons ''A|http://a.com, B'' = Inl InvalidButtonFormat"
  by (simp add: two_bars_accepted no_bar_rejected)

text \<open>
  C5, amended. The input is trimmed and split on commas and each segment is trimmed.
  Parsing succeeds exactly when every segment contains at least one \<open>|\<close> and what
  follows its first \<open>|\<close>, trimmed, starts with \<^verbatim>\<open>http://\<close> or \<^verbatim>\<open>https://\<close>; the buttons are
  then the segments' text and url, in order. Otherwise the first segment that fails
  decides the report: a format message without the segment when it has no \<open>|\<close>, a
  message naming the url when the url is bad; and nothing of the batch is staged. The
  three examples of the claim hold.
\<close>

theorem parse_buttons_first_bar:
  "parse_buttons message_text =
     (case List.find (\<lambda>seg. \<not> segment_ok seg) (button_definitions message_text) of
        None \<Rightarrow> Inr (map to_button (button_definitions message_text))
      | Some seg \<Rightarrow> Inl (complaint_of seg))
   \<and> (message_text \<noteq> ''/skip''
        \<and> (\<exists>seg \<in> set (button_definitions message_text). \<not> segment_ok seg) \<longrightarrow>
      user_data (snd (receive_buttons chat message_text w)) = user_data w)
   \<and> parse_buttons ''A|http://a.com, B|https://b.com'' =
       Inr [\<lparr>button_text = ''A'', button_url = ''http://a.com''\<rparr>,
            \<lparr>button_text = ''B'', button_url = ''https://b.com''\<rparr>]
   \<and> parse_buttons ''A|ftp://x'' = Inl (InvalidUrl ''ftp://x'')
   \<and> parse_buttons ''A|http://a.com, B'' = Inl InvalidButtonFormat"
proof (intro conjI impI)
  show "parse_buttons message_text =
     (case List.find (\<lambda>seg. \<not> segment_ok seg) (button_definitions message_text) of
        None \<Rightarrow> Inr (map to_button (button_definitions message_text))
      | Some seg \<Rightarrow> Inl (complaint_of seg))"
    by (rule parse_buttons_find)
next
  assume a: "message_text \<noteq> ''/skip''
    \<and> (\<exists>seg \<in> set (button_definitions message_text). \<not> segment_ok seg)"
  then obtain seg where "parse_buttons message_text = Inl (complaint_of seg)"
    using bad_segment_complaint by blast
  with a show "user_data (snd (receive_buttons chat message_text w)) = user_data w"
    by (simp add: receive_buttons_complaint)
qed (rule two_buttons ftp_rejected no_bar_rejected)+

theorem parse_buttons_first_bar_witness:
  "parse_buttons ''A|ftp://x'' = Inl (InvalidUrl ''ftp://x'')
   \<and> user_data (snd (receive_buttons 100 ''A|ftp://x'' in_buttons_step)) =
       user_data in_buttons_step
   \<and> filter_buttons (user_data in_buttons_step) = None"
proof -
  have segs: "button_definitions ''A|ftp://x'' = [''A|ftp://x'']"
    by (simp add: button_definitions_def strip_def isspace_def)
  have bad: "\<not> segment_ok ''A|ftp://x''"
    by (simp add: segment_ok_def url_of_def split_once_def strip_def isspace_def startswith_def)
  have c: "complaint_of ''A|ftp://x'' = InvalidUrl ''ftp://x''"
    by (simp add: complaint_of_def url_of_def split_once_def strip_def isspace_def)
  show ?thesis
    using parse_buttons_first_bar [of "''A|ftp://x''" 100 in_buttons_step]
    by (simp add: segs bad c in_buttons_step_def cleared_def)
qed

text \<open>
  C6. When the button input fails validation, \<^verbatim>\<open>receive_buttons\<close> returns
  \<open>AWAITING_BUTTONS\<close> and the world differs from the one before only by the report that
  was sent: the staged image, the staged buttons and every other key of the session are
  untouched, and so is the conversation's state.
\<close>

theorem failed_buttons_leave_session:
  assumes "message_text \<noteq> ''/skip''"
    and "parse_buttons message_text = Inl report"
  shows "receive_buttons chat message_text w =
           (Inr AWAITING_BUTTONS, w\<lparr>sent := sent w @ [(chat, report)]\<rparr>)
       \<and> user_data (snd (receive_buttons chat message_text w)) = user_data w
       \<and> dispatch user_id chat (TextMessage message_text now_iso) (AWAITING_BUTTONS, w) =
           (AWAITING_BUTTONS, w\<lparr>sent := sent w @ [(chat, report)]\<rparr>)"
  using assms by (simp add: receive_buttons_complaint settle_def)

theorem failed_buttons_leave_session_witness:
  "receive_buttons 100 ''A|http://a.com, B'' in_buttons_step =
     (Inr AWAITING_BUTTONS, in_buttons_step\<lparr>sent := [(100, InvalidButtonFormat)]\<rparr>)
   \<and> filter_image_filename (user_data (snd (receive_buttons 100 ''A|http://a.com, B'' in_buttons_step))) =
       Some (Some ''100_20240101_120000.jpg'')
   \<and> filter_buttons (user_data (snd (receive_buttons 100 ''A|http://a.com, B'' in_buttons_step))) = None"
proof -
  have ne: "''A|http://a.com, B'' \<noteq> ''/skip''"
    by simp
  have s: "sent in_buttons_step = []"
    by (simp add: in_buttons_step_def initial_def)
  show ?thesis
    using failed_buttons_leave_session [OF ne no_bar_rejected, of 100 in_buttons_step 7 "[]"]
    by (simp add: s) (simp add: in_buttons_step_def cleared_def)
qed

section \<open>Properties of the trigger step\<close>

lemma trigger_of_hello: "trigger_of ''  Hello '' = ''hello''"
  by (simp add: trigger_of_def lower_def strip_def isspace_def lower_char_def)

lemma trigger_of_no_break: "trigger_of (CHR 0xA0 # ''HELLO'' @ [CHR 0x85]) = ''hello''"
  by (simp add: trigger_of_def lower_def strip_def isspace_def lower_char_def)

lemma trigger_of_latin: "trigger_of [CHR 0xC9, CHR 0xD7] = [CHR 0xE9, CHR 0xD7]"
  by code_simp

lemma dropWhile_blanks_first:
  "\<forall>c \<in> set pre. isspace c \<Longrightarrow> dropWhile isspace (pre @ s) = dropWhile isspace s"
  by (induction pre) simp_all

lemma strip_padded:
  assumes "\<forall>c \<in> set pre. isspace c" "\<forall>c \<in> set post. isspace c"
  shows "strip (pre @ s @ post) = strip s"
proof (cases "dropWhile isspace s = []")
  case True
  then have "\<forall>c \<in> set (s @ post). isspace c"
    using assms(2) by (auto simp: dropWhile_eq_Nil_conv)
  then have "dropWhile isspace (s @ post) = []"
    by (simp only: dropWhile_eq_Nil_conv)
  with True assms(1) show ?thesis
    by (simp only: strip_def dropWhile_blanks_first)
next
  case False
  then obtain x where "x \<in> set s" "\<not> isspace x"
    by (auto simp: dropWhile_eq_Nil_conv)
  then have "dropWhile isspace (s @ post) = dropWhile isspace s @ post"
    by (rule dropWhile_append1)
  moreover have "dropWhile isspace (rev post @ rev (dropWhile isspace s)) =
      dropWhile isspace (rev (dropWhile isspace s))"
    using assms(2) by (intro dropWhile_blanks_first) simp
  ultimately show ?thesis
    using assms(1) by (simp only: strip_def dropWhile_blanks_first rev_append)
qed

lemma trigger_of_padded:
  "\<forall>c \<in> set pre. isspace c \<Longrightarrow> \<forall>c \<in> set post. isspace c \<Longrightarrow>
     trigger_of (pre @ s @ post) = trigger_of s"
  by (simp only: trigger_of_def strip_padded)

lemma ensure_loaded_cached:
  "filters_cache w \<noteq> [] \<Longrightarrow> ensure_loaded w = (Inr (filters_cache w), [])"
  by (simp add: ensure_loaded_def)

lemma map_of_dict_set: "map_of (dict_set d k v) = (map_of d)(k \<mapsto> v)"
  by (induction d) (auto simp: fun_eq_iff)

lemma dict_get_dict_set: "dict_get (dict_set d k v) k dflt = v"
  by (simp add: dict_get_def map_of_dict_set)

lemma dict_get_dict_set_other: "k' \<noteq> k \<Longrightarrow> dict_get (dict_set d k v) k' dflt = dict_get d k' dflt"
  by (simp add: dict_get_def map_of_dict_set)

lemma dict_in_dom: "dict_in k d \<longleftrightarrow> k \<in> dom (map_of d)"
  by (simp add: dict_in_def dom_map_of_conv_image_fst)

lemma dict_in_dict_set: "dict_in k' (dict_set d k v) \<longleftrightarrow> k' = k \<or> dict_in k' d"
  by (simp add: dict_in_dom map_of_dict_set)

lemma strip_blank:
  assumes "\<forall>c \<in> set s. isspace c"
  shows "strip s = []"
proof -
  from assms have e: "dropWhile isspace s = []"
    by (induction s) simp_all
  show ?thesis
    by (simp only: strip_def e rev.simps dropWhile.simps)
qed

lemma trigger_of_blank: "\<forall>c \<in> set s. isspace c \<Longrightarrow> trigger_of s = []"
  by (simp add: trigger_of_def strip_blank lower_def)

lemma rejected:
  assumes "filter_chat_id (user_data w) = Some chat_id"
    and "ensure_loaded w = (Inr cache, lines)"
    and "dict_in (trigger_of message_text) (dict_get cache chat_id [])"
  shows "receive_filter_trigger chat user_id now_iso message_text w =
           (Inr AWAITING_FILTER_TRIGGER,
            w\<lparr>filters_cache := cache, error_log := error_log w @ lines,
               sent := sent w @ [(chat, TriggerExists (trigger_of message_text))]\<rparr>)"
  using assms by (simp add: receive_filter_trigger_def reply_text_def)

lemma created:
  assumes "filter_chat_id (user_data w) = Some chat_id"
    and "ensure_loaded w = (Inr cache, lines)"
    and "\<not> dict_in (trigger_of message_text) (dict_get cache chat_id [])"
  shows "fst (receive_filter_trigger chat user_id now_iso message_text w) = Inr END"
    and "map_of (dict_get (filters_cache (snd (receive_filter_trigger chat user_id now_iso message_text w))) chat_id [])
           (trigger_of message_text) = Some (staged_filter user_id now_iso (user_data w))"
    and "user_data (snd (receive_filter_trigger chat user_id now_iso message_text w)) = cleared"
  using assms
  by (simp_all add: receive_filter_trigger_def reply_text_def Let_def save_filters_def
        dict_get_dict_set map_of_dict_set staged_filter_def
        split: write_outcome.splits prod.splits)

lemma created_more:
  assumes "filter_chat_id (user_data w) = Some chat_id"
    and "ensure_loaded w = (Inr cache, lines)"
    and "\<not> dict_in (trigger_of message_text) (dict_get cache chat_id [])"
  shows "sent (snd (receive_filter_trigger chat user_id now_iso message_text w)) =
           sent w @ (case next_write w of Written \<Rightarrow> [] | WriteFails left \<Rightarrow> [(chat, SaveIssue)])
             @ [(chat, FilterCreated (trigger_of message_text)
                   (fd_image (staged_filter user_id now_iso (user_data w)) \<noteq> None
                    \<and> fd_image (staged_filter user_id now_iso (user_data w)) \<noteq> Some [])
                   (length (fd_buttons (staged_filter user_id now_iso (user_data w)))))]"
    and "filters_file (snd (receive_filter_trigger chat user_id now_iso message_text w)) =
           (case next_write w of
              Written \<Rightarrow> JsonObject (save_items
                (filters_cache (snd (receive_filter_trigger chat user_id now_iso message_text w))))
            | WriteFails left \<Rightarrow> left)"
    and "error_log (snd (receive_filter_trigger chat user_id now_iso message_text w)) =
           error_log w @ lines
             @ (case next_write w of Written \<Rightarrow> [] | WriteFails left \<Rightarrow> [ErrorSavingFilters])"
  using assms
  by (simp_all add: receive_filter_trigger_def reply_text_def Let_def save_filters_def
        split: write_outcome.splits prod.splits)

lemma dispatch_trigger:
  "fst (receive_filter_trigger chat user_id now_iso message_text w) = Inr st \<Longrightarrow>
     dispatch user_id chat (TextMessage message_text now_iso) (AWAITING_FILTER_TRIGGER, w) =
       (st, snd (receive_filter_trigger chat user_id now_iso message_text w))"
  by (simp add: settle_def)

text \<open>
  C2. In the trigger step the text is trimmed and lower-cased. When the chat's table (in
  the cache, loaded from the file first if the cache is empty) already has the resulting
  trigger, the handler answers with the rejection and returns
  \<open>AWAITING_FILTER_TRIGGER\<close>; the world changes by that message only (and by the cache
  now holding what was loaded): no filter is created or overwritten and the file is not
  written. This holds for every text whose trimmed, lower-cased form is the existing
  trigger, and blanks put around such a text do not change that form. \<open>"  Hello "\<close>
  becomes \<open>"hello"\<close>, and so does \<open>"HELLO"\<close> between a no-break space (160) and a
  NEL (133); the capital E with acute accent (201) becomes the small one (233), and the
  multiplication sign (215) stays.
\<close>

theorem duplicate_trigger_rejected:
  assumes "filter_chat_id (user_data w) = Some chat_id"
    and "ensure_loaded w = (Inr cache, lines)"
    and "dict_in existing (dict_get cache chat_id [])"
    and "trigger_of message_text = existing"
  shows "receive_filter_trigger chat user_id now_iso message_text w =
           (Inr AWAITING_FILTER_TRIGGER,
            w\<lparr>filters_cache := cache, error_log := error_log w @ lines,
               sent := sent w @ [(chat, TriggerExists existing)]\<rparr>)
       \<and> dispatch user_id chat (TextMessage message_text now_iso) (AWAITING_FILTER_TRIGGER, w) =
           (AWAITING_FILTER_TRIGGER,
            w\<lparr>filters_cache := cache, error_log := error_log w @ lines,
               sent := sent w @ [(chat, TriggerExists existing)]\<rparr>)
       \<and> (filters_cache w \<noteq> [] \<longrightarrow> cache = filters_cache w \<and> lines = [])
       \<and> ((\<forall>c \<in> set pre. isspace c) \<and> (\<forall>c \<in> set post. isspace c) \<longrightarrow>
            trigger_of (pre @ message_text @ post) = existing)
       \<and> trigger_of ''  Hello '' = ''hello''
       \<and> trigger_of (CHR 0xA0 # ''HELLO'' @ [CHR 0x85]) = ''hello''
       \<and> trigger_of [CHR 0xC9, CHR 0xD7] = [CHR 0xE9, CHR 0xD7]"
proof -
  have r: "receive_filter_trigger chat user_id now_iso message_text w =
           (Inr AWAITING_FILTER_TRIGGER,
            w\<lparr>filters_cache := cache, error_log := error_log w @ lines,
               sent := sent w @ [(chat, TriggerExists existing)]\<rparr>)"
    using assms rejected [of w chat_id cache lines message_text chat user_id now_iso] by simp
  have c: "filters_cache w \<noteq> [] \<longrightarrow> cache = filters_cache w \<and> lines = []"
    using assms(2) by (auto simp: ensure_loaded_def)
  have p: "(\<forall>c \<in> set pre. isspace c) \<and> (\<forall>c \<in> set post. isspace c) \<longrightarrow>
      trigger_of (pre @ message_text @ post) = existing"
    using assms(4) trigger_of_padded [of pre post message_text] by blast
  have d: "dispatch user_id chat (TextMessage message_text now_iso) (AWAITING_FILTER_TRIGGER, w) =
           (AWAITING_FILTER_TRIGGER,
            w\<lparr>filters_cache := cache, error_log := error_log w @ lines,
               sent := sent w @ [(chat, TriggerExists existing)]\<rparr>)"
    using r by (simp add: settle_def)
  show ?thesis
    by (intro conjI) (rule r d c p trigger_of_hello trigger_of_no_break trigger_of_latin)+
qed

theorem duplicate_trigger_rejected_witness:
  "receive_filter_trigger 100 7 ''2024-02-02T10:00:00'' ''  Hello '' in_trigger_step =
     (Inr AWAITING_FILTER_TRIGGER, in_trigger_step\<lparr>sent := [(100, TriggerExists ''hello'')]\<rparr>)
   \<and> receive_filter_trigger 100 7 ''2024-02-02T10:00:00'' (CHR 0xA0 # ''HELLO'' @ [CHR 0x85])
       in_trigger_step =
     (Inr AWAITING_FILTER_TRIGGER, in_trigger_step\<lparr>sent := [(100, TriggerExists ''hello'')]\<rparr>)
   \<and> filters_cache in_trigger_step = [(100, [(''hello'', greeting)])]"
proof -
  have a: "filter_chat_id (user_data in_trigger_step) = Some 100"
    by (simp add: in_trigger_step_def)
  have b: "ensure_loaded in_trigger_step = (Inr [(100, [(''hello'', greeting)])], [])"
    by (simp add: ensure_loaded_def in_trigger_step_def)
  have c: "dict_in ''hello'' (dict_get [(100 :: int, [(''hello'', greeting)])] 100 [])"
    by (simp add: dict_in_def dict_get_def)
  have d: "trigger_of ''  Hello '' = ''hello''"
    by (simp add: trigger_of_def lower_def strip_def isspace_def lower_char_def)
  have e: "in_trigger_step\<lparr>filters_cache := [(100, [(''hello'', greeting)])],
      error_log := error_log in_trigger_step @ [], sent := sent in_trigger_step @ [x]\<rparr> =
      in_trigger_step\<lparr>sent := [x]\<rparr>" for x
    by (simp add: in_trigger_step_def initial_def)
  from duplicate_trigger_rejected [OF a b c d, of 100 7 "''2024-02-02T10:00:00''"]
  have "receive_filter_trigger 100 7 ''2024-02-02T10:00:00'' ''  Hello '' in_trigger_step =
      (Inr AWAITING_FILTER_TRIGGER,
       in_trigger_step\<lparr>filters_cache := [(100, [(''hello'', greeting)])],
         error_log := error_log in_trigger_step @ [],
         sent := sent in_trigger_step @ [(100, TriggerExists ''hello'')]\<rparr>)"
    by (rule conjunct1)
  then have first: "receive_filter_trigger 100 7 ''2024-02-02T10:00:00'' ''  Hello '' in_trigger_step =
      (Inr AWAITING_FILTER_TRIGGER, in_trigger_step\<lparr>sent := [(100, TriggerExists ''hello'')]\<rparr>)"
    by (simp only: e)
  have d': "trigger_of (CHR 0xA0 # ''HELLO'' @ [CHR 0x85]) = ''hello''"
    by (simp add: trigger_of_def lower_def strip_def isspace_def lower_char_def)
  from duplicate_trigger_rejected [OF a b c d', of 100 7 "''2024-02-02T10:00:00''"]
  have "receive_filter_trigger 100 7 ''2024-02-02T10:00:00'' (CHR 0xA0 # ''HELLO'' @ [CHR 0x85])
      in_trigger_step =
      (Inr AWAITING_FILTER_TRIGGER,
       in_trigger_step\<lparr>filters_cache := [(100, [(''hello'', greeting)])],
         error_log := error_log in_trigger_step @ [],
         sent := sent in_trigger_step @ [(100, TriggerExists ''hello'')]\<rparr>)"
    by (rule conjunct1)
  then have second: "receive_filter_trigger 100 7 ''2024-02-02T10:00:00''
      (CHR 0xA0 # ''HELLO'' @ [CHR 0x85]) in_trigger_step =
      (Inr AWAITING_FILTER_TRIGGER, in_trigger_step\<lparr>sent := [(100, TriggerExists ''hello'')]\<rparr>)"
    by (simp only: e)
  have third: "filters_cache in_trigger_step = [(100, [(''hello'', greeting)])]"
    by (simp add: in_trigger_step_def)
  from first second third show ?thesis
    by (intro conjI)
qed

text \<open>
  C9. When the write of a new filter fails, the handler still returns \<open>END\<close>: the cache
  holds the new filter under its trigger, the user gets the warning and then the
  confirmation, the failure is logged, and the session data is cleared.
\<close>

theorem unsaved_filter_still_created:
  assumes "filter_chat_id (user_data w) = Some chat_id"
    and "ensure_loaded w = (Inr cache, lines)"
    and "\<not> dict_in (trigger_of message_text) (dict_get cache chat_id [])"
    and "next_write w = WriteFails left"
  shows "fst (receive_filter_trigger chat user_id now_iso message_text w) = Inr END
       \<and> map_of (dict_get (filters_cache (snd (receive_filter_trigger chat user_id now_iso message_text w)))
                  chat_id [])
           (trigger_of message_text) = Some (staged_filter user_id now_iso (user_data w))
       \<and> sent (snd (receive_filter_trigger chat user_id now_iso message_text w)) =
           sent w @ [(chat, SaveIssue),
             (chat, FilterCreated (trigger_of message_text)
                (fd_image (staged_filter user_id now_iso (user_data w)) \<noteq> None
                 \<and> fd_image (staged_filter user_id now_iso (user_data w)) \<noteq> Some [])
                (length (fd_buttons (staged_filter user_id now_iso (user_data w)))))]
       \<and> error_log (snd (receive_filter_trigger chat user_id now_iso message_text w)) =
           error_log w @ lines @ [ErrorSavingFilters]
       \<and> filters_file (snd (receive_filter_trigger chat user_id now_iso message_text w)) = left
       \<and> user_data (snd (receive_filter_trigger chat user_id now_iso message_text w)) = cleared
       \<and> fst (dispatch user_id chat (TextMessage message_text now_iso) (AWAITING_FILTER_TRIGGER, w)) = END"
proof -
  note c = created [OF assms(1-3), of chat user_id now_iso]
  have "dispatch user_id chat (TextMessage message_text now_iso) (AWAITING_FILTER_TRIGGER, w) =
      (END, snd (receive_filter_trigger chat user_id now_iso message_text w))"
    using c(1) by (rule dispatch_trigger)
  then show ?thesis
    using c created_more [OF assms(1-3), of chat user_id now_iso] assms(4)
    by simp
qed

theorem unsaved_filter_still_created_witness:
  "fst (receive_filter_trigger 100 7 ''2024-02-02T10:00:00'' ''Bye''
          (in_trigger_step\<lparr>next_write := WriteFails NotJson\<rparr>)) = Inr END
   \<and> filters_cache (snd (receive_filter_trigger 100 7 ''2024-02-02T10:00:00'' ''Bye''
          (in_trigger_step\<lparr>next_write := WriteFails NotJson\<rparr>))) =
       [(100, [(''hello'', greeting),
               (''bye'', \<lparr>fd_image = None, fd_buttons = [], fd_created_by = 7,
                          fd_created_at = ''2024-02-02T10:00:00''\<rparr>)])]
   \<and> sent (snd (receive_filter_trigger 100 7 ''2024-02-02T10:00:00'' ''Bye''
          (in_trigger_step\<lparr>next_write := WriteFails NotJson\<rparr>))) =
       [(100, SaveIssue), (100, FilterCreated ''bye'' False 0)]"
proof -
  let ?w = "in_trigger_step\<lparr>next_write := WriteFails NotJson\<rparr>"
  have a: "filter_chat_id (user_data ?w) = Some 100"
    by (simp add: in_trigger_step_def)
  have b: "ensure_loaded ?w = (Inr [(100, [(''hello'', greeting)])], [])"
    by (simp add: ensure_loaded_def in_trigger_step_def)
  have t: "trigger_of ''Bye'' = ''bye''"
    by (simp add: trigger_of_def lower_def strip_def isspace_def lower_char_def)
  have c: "\<not> dict_in (trigger_of ''Bye'') (dict_get [(100 :: int, [(''hello'', greeting)])] 100 [])"
    by (simp add: t dict_in_def dict_get_def)
  have d: "next_write ?w = WriteFails NotJson"
    by simp
  have cache: "filters_cache (snd (receive_filter_trigger 100 7 ''2024-02-02T10:00:00'' ''Bye'' ?w)) =
       [(100, [(''hello'', greeting),
               (''bye'', \<lparr>fd_image = None, fd_buttons = [], fd_created_by = 7,
                          fd_created_at = ''2024-02-02T10:00:00''\<rparr>)])]"
    by (simp add: receive_filter_trigger_def ensure_loaded_def t dict_in_def dict_get_def
          staged_filter_def in_trigger_step_def initial_def cleared_def save_filters_def
          reply_text_def Let_def)
  show ?thesis
    using unsaved_filter_still_created [OF a b c d, of 100 7 "''2024-02-02T10:00:00''"]
    by (simp add: cache t) (simp add: staged_filter_def in_trigger_step_def cleared_def initial_def)
qed

text \<open>
  C10. A text of blanks only becomes the empty trigger; when the chat has no filter under
  the empty trigger, the handler creates one, keeps it in the cache, writes it to the
  file when the write goes through, confirms and returns \<open>END\<close>.
\<close>

theorem blank_trigger_accepted:
  assumes "\<forall>c \<in> set message_text. isspace c"
    and "filter_chat_id (user_data w) = Some chat_id"
    and "ensure_loaded w = (Inr cache, lines)"
    and "\<not> dict_in [] (dict_get cache chat_id [])"
  shows "trigger_of message_text = []
       \<and> fst (receive_filter_trigger chat user_id now_iso message_text w) = Inr END
       \<and> map_of (dict_get (filters_cache (snd (receive_filter_trigger chat user_id now_iso message_text w)))
                  chat_id []) []
           = Some (staged_filter user_id now_iso (user_data w))
       \<and> (next_write w = Written \<longrightarrow>
            filters_file (snd (receive_filter_trigger chat user_id now_iso message_text w)) =
              JsonObject (save_items
                (filters_cache (snd (receive_filter_trigger chat user_id now_iso message_text w)))))
       \<and> last (sent (snd (receive_filter_trigger chat user_id now_iso message_text w))) =
           (chat, FilterCreated []
              (fd_image (staged_filter user_id now_iso (user_data w)) \<noteq> None
               \<and> fd_image (staged_filter user_id now_iso (user_data w)) \<noteq> Some [])
              (length (fd_buttons (staged_filter user_id now_iso (user_data w)))))"
proof -
  have t: "trigger_of message_text = []"
    using assms(1) by (rule trigger_of_blank)
  with assms(4) have n: "\<not> dict_in (trigger_of message_text) (dict_get cache chat_id [])"
    by simp
  show ?thesis
    using created [OF assms(2,3) n, of chat user_id now_iso]
      created_more [OF assms(2,3) n, of chat user_id now_iso] t
    by simp
qed

theorem blank_trigger_accepted_witness:
  "trigger_of [CHR '' '', CHR 0x09, CHR '' ''] = []
   \<and> fst (receive_filter_trigger 100 7 ''2024-02-02T10:00:00'' [CHR '' '', CHR 0x09, CHR '' '']
            in_trigger_step) = Inr END
   \<and> filters_cache (snd (receive_filter_trigger 100 7 ''2024-02-02T10:00:00''
            [CHR '' '', CHR 0x09, CHR '' ''] in_trigger_step)) =
       [(100, [(''hello'', greeting),
               ([], \<lparr>fd_image = None, fd_buttons = [], fd_created_by = 7,
                      fd_created_at = ''2024-02-02T10:00:00''\<rparr>)])]"
proof -
  let ?m = "[CHR '' '', CHR 0x09, CHR '' '']"
  have s: "\<forall>c \<in> set ?m. isspace c"
    by (simp add: isspace_def)
  have a: "filter_chat_id (user_data in_trigger_step) = Some 100"
    by (simp add: in_trigger_step_def)
  have b: "ensure_loaded in_trigger_step = (Inr [(100, [(''hello'', greeting)])], [])"
    by (simp add: ensure_loaded_def in_trigger_step_def)
  have c: "\<not> dict_in [] (dict_get [(100 :: int, [(''hello'', greeting)])] 100 [])"
    by (simp add: dict_in_def dict_get_def)
  have t: "trigger_of ?m = []"
    by (simp add: trigger_of_def lower_def strip_def isspace_def)
  have cache: "filters_cache (snd (receive_filter_trigger 100 7 ''2024-02-02T10:00:00'' ?m
            in_trigger_step)) =
       [(100, [(''hello'', greeting),
               ([], \<lparr>fd_image = None, fd_buttons = [], fd_created_by = 7,
                      fd_created_at = ''2024-02-02T10:00:00''\<rparr>)])]"
    by (simp add: receive_filter_trigger_def ensure_loaded_def t dict_in_def dict_get_def
          staged_filter_def in_trigger_step_def initial_def cleared_def save_filters_def
          reply_text_def Let_def)
  show ?thesis
    using blank_trigger_accepted [OF s a b c, of 100 7 "''2024-02-02T10:00:00''"]
    by (simp add: cache)
qed

section \<open>Properties of the session\<close>

lemma timeout_name_7: "timeout_name 7 = ''filter_timeout_7''"
  by (simp add: timeout_name_def py_str_def str_nat.simps digit_char_def)

lemma py_str_100: "py_str 100 = ''100''"
  by (simp add: py_str_def str_nat.simps digit_char_def)

lemma command_admitted:
  "filter_command 7 100 True True 0 initial =
     (Inr AWAITING_IMAGE,
      initial\<lparr>user_request_tracker := [7 \<mapsto> [0]],
        user_data := cleared\<lparr>filter_chat_id := Some 100, timeout_job := Some ''filter_timeout_7''\<rparr>,
        job_queue := [\<lparr>job_name = ''filter_timeout_7'', job_chat_id = 100, job_user_id = 7\<rparr>],
        sent := [(100, AskImage)]\<rparr>)"
  by (simp add: filter_command_def check_rate_limit_def prune_def initial_def reply_text_def
        timeout_name_7 Let_def)

lemma run_command: "run 7 100 [FilterCommand True True 0] (END, initial) = (AWAITING_IMAGE, awaiting)"
  by (simp add: run_def settle_def command_admitted awaiting_def)

lemma run_append: "run u c (evs @ evs') s = run u c evs' (run u c evs s)"
  by (simp add: run_def)

lemma run_snoc: "run u c (evs @ [ev]) s = dispatch u c ev (run u c evs s)"
  by (simp add: run_def)

lemma timeout_fires:
  "dispatch 7 100 TimeoutFires (AWAITING_IMAGE, awaiting) =
     (AWAITING_IMAGE, awaiting\<lparr>job_queue := [], sent := [(100, AskImage), (100, TimesUp)]\<rparr>)"
  by (simp add: awaiting_def timeout_callback_def initial_def)

lemma photo_after_timeout:
  "dispatch 7 100 (Photo Downloaded ''20240101_120000'')
     (AWAITING_IMAGE, awaiting\<lparr>job_queue := [], sent := [(100, AskImage), (100, TimesUp)]\<rparr>) =
   (AWAITING_BUTTONS,
    awaiting\<lparr>job_queue := [], sent := [(100, AskImage), (100, TimesUp), (100, ImageReceived)],
      image_files := [''data/images/100_20240101_120000.jpg''],
      user_data := cleared\<lparr>filter_chat_id := Some 100, timeout_job := Some ''filter_timeout_7'',
        filter_image_path := Some (Some ''data/images/100_20240101_120000.jpg''),
        filter_image_filename := Some (Some ''100_20240101_120000.jpg'')\<rparr>\<rparr>)"
  by (simp add: awaiting_def initial_def receive_image_def cancel_timeout_def settle_def
        reply_text_def py_str_100 IMAGES_DIR_def cleared_def Let_def)

lemma stop_in_image_step:
  "dispatch 7 100 StopCommand (AWAITING_IMAGE, awaiting) =
     (END, awaiting\<lparr>user_data := cleared, sent := [(100, AskImage), (100, OperationCanceled)]\<rparr>)"
  by (simp add: awaiting_def initial_def stop_conversation_def settle_def reply_text_def
        cleared_def Let_def)

lemma skip_then_stop:
  "run 7 100 [SkipCommand, StopCommand] (AWAITING_IMAGE, awaiting) =
     (AWAITING_BUTTONS,
      awaiting\<lparr>job_queue := [], sent := [(100, AskImage), (100, SkippedImage)],
        user_data := cleared\<lparr>filter_chat_id := Some 100, timeout_job := Some ''filter_timeout_7'',
          filter_image_path := Some None, filter_image_filename := Some None\<rparr>\<rparr>)"
  by (simp add: run_def awaiting_def initial_def skip_image_def cancel_timeout_def settle_def
        stop_conversation_def reply_text_def cleared_def Let_def)

lemma timeout_keeps_state:
  "fst (dispatch user_id chat TimeoutFires (st, w)) = st
   \<and> user_data (snd (dispatch user_id chat TimeoutFires (st, w))) = user_data w"
  by (simp add: timeout_callback_def split: list.splits)

lemma stop_keeps_queue: "job_queue (snd (stop_conversation chat w)) = job_queue w"
  by (simp add: stop_conversation_def reply_text_def log_error_def Let_def
        split: option.splits)

text \<open>
  C3. The code does not do what the claim says. When the timeout job fires,
  \<^verbatim>\<open>timeout_callback\<close> only sends the message: in every state the conversation stays
  where it was and \<^verbatim>\<open>user_data\<close> keeps its keys. After the authoring command and the
  timeout, the session is still in \<open>AWAITING_IMAGE\<close>, and a photo sent afterwards is
  downloaded and staged and moves the session to \<open>AWAITING_BUTTONS\<close>.
\<close>

theorem timeout_leaves_session_alive:
  "fst (dispatch user_id chat TimeoutFires (st, w)) = st
   \<and> user_data (snd (dispatch user_id chat TimeoutFires (st, w))) = user_data w
   \<and> run 7 100 [FilterCommand True True 0, TimeoutFires] (END, initial) =
       (AWAITING_IMAGE, awaiting\<lparr>job_queue := [], sent := [(100, AskImage), (100, TimesUp)]\<rparr>)
   \<and> run 7 100 [FilterCommand True True 0, TimeoutFires, Photo Downloaded ''20240101_120000'']
         (END, initial) =
       (AWAITING_BUTTONS,
        awaiting\<lparr>job_queue := [],
          sent := [(100, AskImage), (100, TimesUp), (100, ImageReceived)],
          image_files := [''data/images/100_20240101_120000.jpg''],
          user_data := cleared\<lparr>filter_chat_id := Some 100,
            timeout_job := Some ''filter_timeout_7'',
            filter_image_path := Some (Some ''data/images/100_20240101_120000.jpg''),
            filter_image_filename := Some (Some ''100_20240101_120000.jpg'')\<rparr>\<rparr>)"
proof -
  have a: "run 7 100 [FilterCommand True True 0, TimeoutFires] (END, initial) =
      (AWAITING_IMAGE, awaiting\<lparr>job_queue := [], sent := [(100, AskImage), (100, TimesUp)]\<rparr>)"
    using run_snoc [of 7 100 "[FilterCommand True True 0]" TimeoutFires "(END, initial)"]
    by (simp only: append_Cons append_Nil run_command timeout_fires)
  have b: "run 7 100 [FilterCommand True True 0, TimeoutFires, Photo Downloaded ''20240101_120000'']
      (END, initial) =
    dispatch 7 100 (Photo Downloaded ''20240101_120000'')
      (run 7 100 [FilterCommand True True 0, TimeoutFires] (END, initial))"
    using run_snoc [of 7 100 "[FilterCommand True True 0, TimeoutFires]"
        "Photo Downloaded ''20240101_120000''" "(END, initial)"]
    by (simp only: append_Cons append_Nil)
  show ?thesis
    using timeout_keeps_state [of user_id chat st w]
    by (simp only: a b photo_after_timeout)
qed

text \<open>
  C4. The code does not do what the claim says. \<^verbatim>\<open>stop_conversation\<close> never touches the
  job queue, so \<^verbatim>\<open>/stop\<close> in the image step leaves the timeout job pending, and the job
  later sends its message to the chat. And after \<^verbatim>\<open>/skip\<close> in the image step the key
  \<^verbatim>\<open>filter_image_path\<close> holds \<^verbatim>\<open>None\<close>: \<^verbatim>\<open>/stop\<close> then raises before anything is
  cleared, nothing is reported, and the session stays in \<open>AWAITING_BUTTONS\<close>.
\<close>

theorem stop_leaves_timeout_pending:
  "job_queue (snd (stop_conversation chat w)) = job_queue w
   \<and> run 7 100 [FilterCommand True True 0, StopCommand] (END, initial) =
       (END, awaiting\<lparr>user_data := cleared,
          sent := [(100, AskImage), (100, OperationCanceled)]\<rparr>)
   \<and> job_queue awaiting =
       [\<lparr>job_name = ''filter_timeout_7'', job_chat_id = 100, job_user_id = 7\<rparr>]
   \<and> sent (snd (run 7 100 [FilterCommand True True 0, StopCommand, TimeoutFires] (END, initial))) =
       [(100, AskImage), (100, OperationCanceled), (100, TimesUp)]
   \<and> run 7 100 [FilterCommand True True 0, SkipCommand, StopCommand] (END, initial) =
       (AWAITING_BUTTONS,
        awaiting\<lparr>job_queue := [], sent := [(100, AskImage), (100, SkippedImage)],
          user_data := cleared\<lparr>filter_chat_id := Some 100,
            timeout_job := Some ''filter_timeout_7'',
            filter_image_path := Some None, filter_image_filename := Some None\<rparr>\<rparr>)"
proof -
  have a: "run 7 100 [FilterCommand True True 0, StopCommand] (END, initial) =
      (END, awaiting\<lparr>user_data := cleared,
         sent := [(100, AskImage), (100, OperationCanceled)]\<rparr>)"
    using run_snoc [of 7 100 "[FilterCommand True True 0]" StopCommand "(END, initial)"]
    by (simp only: append_Cons append_Nil run_command stop_in_image_step)
  have b: "run 7 100 [FilterCommand True True 0, StopCommand, TimeoutFires] (END, initial) =
      dispatch 7 100 TimeoutFires (run 7 100 [FilterCommand True True 0, StopCommand] (END, initial))"
    using run_snoc [of 7 100 "[FilterCommand True True 0, StopCommand]" TimeoutFires "(END, initial)"]
    by (simp only: append_Cons append_Nil)
  have c: "sent (snd (run 7 100 [FilterCommand True True 0, StopCommand, TimeoutFires] (END, initial))) =
       [(100, AskImage), (100, OperationCanceled), (100, TimesUp)]"
    by (simp only: a b) (simp add: awaiting_def initial_def timeout_callback_def)
  have d: "run 7 100 [FilterCommand True True 0, SkipCommand, StopCommand] (END, initial) =
      run 7 100 [SkipCommand, StopCommand] (run 7 100 [FilterCommand True True 0] (END, initial))"
    using run_append [of 7 100 "[FilterCommand True True 0]" "[SkipCommand, StopCommand]" "(END, initial)"]
    by (simp only: append_Cons append_Nil)
  have q: "job_queue awaiting =
       [\<lparr>job_name = ''filter_timeout_7'', job_chat_id = 100, job_user_id = 7\<rparr>]"
    by (simp add: awaiting_def)
  show ?thesis
    using stop_keeps_queue [of chat w]
    by (simp only: a c d q run_command skip_then_stop)
qed

end
